theory Spec2Isabelle
  imports Main "HOL-Library.Sublist"
begin

section \<open>Python values used by \<^verbatim>\<open>github_pr_branch_creator.py\<close>\<close>

text \<open>
  A Python \<^verbatim>\<open>str\<close> is modelled as a \<^typ>\<open>string\<close> whose characters are the code
  points below 256. In that range the decimal digits of \<^verbatim>\<open>\d\<close> are \<open>0\<close> to \<open>9\<close>, the
  characters removed by \<^verbatim>\<open>str.strip()\<close> at both ends are the twelve listed in \<open>is_space\<close>, and
  \<^verbatim>\<open>str.lower()\<close> moves the upper-case letters by 32. Python integers are \<^typ>\<open>int\<close>;
  the interpreter's configurable limit on the number of digits \<^verbatim>\<open>int()\<close> accepts is not
  modelled.
\<close>

definition is_space :: "char \<Rightarrow> bool" where
  "is_space c \<longleftrightarrow> (of_char c :: nat) \<in> {9, 10, 11, 12, 13, 28, 29, 30, 31, 32, 133, 160}"

definition lstrip :: "string \<Rightarrow> string" where
  "lstrip s = dropWhile is_space s"

definition rstrip :: "string \<Rightarrow> string" where
  "rstrip s = rev (dropWhile is_space (rev s))"

definition strip :: "string \<Rightarrow> string" where
  "strip s = rstrip (lstrip s)"

definition is_digit :: "char \<Rightarrow> bool" where
  "is_digit c \<longleftrightarrow> c \<in> set ''0123456789''"

definition is_upper :: "char \<Rightarrow> bool" where
  "is_upper c \<longleftrightarrow>
     (let n = (of_char c :: nat)
      in (65 \<le> n \<and> n \<le> 90) \<or> (192 \<le> n \<and> n \<le> 214) \<or> (216 \<le> n \<and> n \<le> 222))"

definition lower_char :: "char \<Rightarrow> char" where
  "lower_char c = (if is_upper c then char_of ((of_char c :: nat) + 32) else c)"

definition lower :: "string \<Rightarrow> string" where
  "lower s = map lower_char s"

text \<open>\<^verbatim>\<open>sub in s\<close> on strings.\<close>

fun str_contains :: "string \<Rightarrow> string \<Rightarrow> bool" where
  "str_contains sub [] = (sub = [])"
| "str_contains sub (c # cs) = (prefix sub (c # cs) \<or> str_contains sub cs)"

text \<open>\<^verbatim>\<open>s.replace(old, new)\<close> for a non-empty \<open>old\<close>: every occurrence, left to right.\<close>

function str_replace :: "string \<Rightarrow> string \<Rightarrow> string \<Rightarrow> string" where
  "str_replace old new [] = []"
| "str_replace old new (c # cs) =
     (if old \<noteq> [] \<and> prefix old (c # cs)
      then new @ str_replace old new (drop (length old) (c # cs))
      else c # str_replace old new cs)"
  by pat_completeness auto
termination
  by (relation "measure (\<lambda>(old, new, s). length s)") (auto simp: neq_Nil_conv)

text \<open>\<^verbatim>\<open>int(s)\<close> on a string of decimal digits, and \<^verbatim>\<open>str(n)\<close> on an integer.\<close>

definition digit_value :: "char \<Rightarrow> int" where
  "digit_value c = int (of_char c) - 48"

definition int_of_digits :: "string \<Rightarrow> int" where
  "int_of_digits s = foldl (\<lambda>a c. 10 * a + digit_value c) 0 s"

definition digit_char :: "nat \<Rightarrow> char" where
  "digit_char d = ''0123456789'' ! d"

fun str_nat :: "nat \<Rightarrow> string" where
  "str_nat n = (if n < 10 then [digit_char n] else str_nat (n div 10) @ [digit_char (n mod 10)])"

definition str_int :: "int \<Rightarrow> string" where
  "str_int i = (if i < 0 then CHR ''-'' # str_nat (nat (- i)) else str_nat (nat i))"

text \<open>\<^verbatim>\<open>os.path.join(a, b)\<close> on a POSIX system.\<close>

definition os_path_join :: "string \<Rightarrow> string \<Rightarrow> string" where
  "os_path_join a b =
     (if prefix ''/'' b then b
      else if a = [] \<or> suffix ''/'' a then a @ b
      else a @ ''/'' @ b)"

section \<open>Exceptions and JSON values\<close>

text \<open>
  The exception classes the script distinguishes. \<open>RequestException\<close> stands for
  \<^verbatim>\<open>requests.RequestException\<close> and its subclasses (\<^verbatim>\<open>HTTPError\<close> among them); every
  constructor is a subclass of \<^verbatim>\<open>Exception\<close>.
\<close>

datatype exn =
    RequestException
  | ValueError string
  | KeyError string
  | TypeError
  | AttributeError
  | OSError
  | OtherException

definition ebind :: "exn + 'a \<Rightarrow> ('a \<Rightarrow> exn + 'b) \<Rightarrow> exn + 'b" where
  "ebind m f = (case m of Inl e \<Rightarrow> Inl e | Inr x \<Rightarrow> f x)"

text \<open>
  What \<^verbatim>\<open>response.json()\<close> returns: \<^verbatim>\<open>None\<close>, \<^verbatim>\<open>bool\<close>, \<^verbatim>\<open>int\<close>, \<^verbatim>\<open>str\<close>,
  \<^verbatim>\<open>list\<close> and \<^verbatim>\<open>dict\<close> (a dictionary as an association list read by \<open>map_of\<close>);
  floating-point numbers are left out.
\<close>

datatype json =
    JNull
  | JBool bool
  | JInt int
  | JStr string
  | JList "json list"
  | JObj "(string \<times> json) list"

text \<open>\<^verbatim>\<open>d[k]\<close> with a string key: only a dictionary can be read that way.\<close>

fun subscript :: "json \<Rightarrow> string \<Rightarrow> exn + json" where
  "subscript (JObj kvs) k = (case map_of kvs k of None \<Rightarrow> Inl (KeyError k) | Some v \<Rightarrow> Inr v)"
| "subscript _ k = Inl TypeError"

text \<open>\<^verbatim>\<open>d[k1][k2]...\<close>, left to right.\<close>

fun subscripts :: "json \<Rightarrow> string list \<Rightarrow> exn + json" where
  "subscripts j [] = Inr j"
| "subscripts j (k # ks) = ebind (subscript j k) (\<lambda>v. subscripts v ks)"

text \<open>\<^verbatim>\<open>d.get(k, default)\<close>: only a dictionary has the method.\<close>

fun dict_get :: "json \<Rightarrow> string \<Rightarrow> json \<Rightarrow> exn + json" where
  "dict_get (JObj kvs) k d = (case map_of kvs k of None \<Rightarrow> Inr d | Some v \<Rightarrow> Inr v)"
| "dict_get _ k d = Inl AttributeError"

text \<open>Truth value of a JSON value, as \<^verbatim>\<open>or\<close> and \<^verbatim>\<open>if\<close> test it.\<close>

fun truthy :: "json \<Rightarrow> bool" where
  "truthy JNull = False"
| "truthy (JBool b) = b"
| "truthy (JInt i) = (i \<noteq> 0)"
| "truthy (JStr s) = (s \<noteq> [])"
| "truthy (JList xs) = (xs \<noteq> [])"
| "truthy (JObj kvs) = (kvs \<noteq> [])"

text \<open>\<^verbatim>\<open>a == b\<close>: \<^verbatim>\<open>True\<close> and \<^verbatim>\<open>1\<close> are equal, dictionaries compare by their items.\<close>

fun py_eq :: "json \<Rightarrow> json \<Rightarrow> bool" where
  "py_eq JNull JNull = True"
| "py_eq (JBool a) (JBool b) = (a = b)"
| "py_eq (JBool a) (JInt b) = ((if a then 1 else 0) = b)"
| "py_eq (JInt a) (JBool b) = (a = (if b then 1 else 0))"
| "py_eq (JInt a) (JInt b) = (a = b)"
| "py_eq (JStr a) (JStr b) = (a = b)"
| "py_eq (JList a) (JList b) = list_all2 py_eq a b"
| "py_eq (JObj a) (JObj b) =
     (set (map fst a) = set (map fst b) \<and>
      list_all (\<lambda>(k, v). case map_of b k of None \<Rightarrow> False | Some w \<Rightarrow> py_eq v w) a)"
| "py_eq _ _ = False"

text \<open>
  \<^verbatim>\<open>x[:n]\<close> raises on a value that cannot be sliced; strings and lists can. Only whether
  the slice raises matters where the script slices a JSON value.
\<close>

fun sliceable :: "json \<Rightarrow> bool" where
  "sliceable (JStr s) = True"
| "sliceable (JList xs) = True"
| "sliceable _ = False"

text \<open>A JSON value passed where \<^verbatim>\<open>subprocess.run\<close> needs a string argument.\<close>

fun arg_str :: "json \<Rightarrow> exn + string" where
  "arg_str (JStr s) = Inr s"
| "arg_str _ = Inl TypeError"

section \<open>The URL resolver: \<^verbatim>\<open>_parse_pr_url\<close>\<close>

text \<open>
  Regular expressions with the constructs the script's pattern uses, and a matcher that
  lists the ways a pattern can match at the start of a string, in the order in which the
  backtracking matcher of \<^verbatim>\<open>re\<close> tries them: \<open>+\<close> and \<open>?\<close> are greedy. A result is the
  rest of the string and the groups captured so far (latest first).
\<close>

datatype re =
    Chr char
  | Str string
  | Set string
  | NotSet string
  | Digit
  | Seq re re
  | Plus re
  | Opt re
  | Grp nat re

type_synonym groups = "(nat \<times> string) list"

definition one_char :: "(char \<Rightarrow> bool) \<Rightarrow> string \<Rightarrow> groups \<Rightarrow> (string \<times> groups) list" where
  "one_char P s g = (case s of [] \<Rightarrow> [] | c # cs \<Rightarrow> if P c then [(cs, g)] else [])"

fun matches :: "re \<Rightarrow> string \<Rightarrow> groups \<Rightarrow> (string \<times> groups) list" where
  "matches (Chr c) s g = one_char (\<lambda>x. x = c) s g"
| "matches (Str l) s g = (if prefix l s then [(drop (length l) s, g)] else [])"
| "matches (Set cs) s g = one_char (\<lambda>x. x \<in> set cs) s g"
| "matches (NotSet cs) s g = one_char (\<lambda>x. x \<notin> set cs) s g"
| "matches Digit s g = one_char is_digit s g"
| "matches (Seq a b) s g = concat (map (\<lambda>(s', g'). matches b s' g') (matches a s g))"
| "matches (Opt a) s g = matches a s g @ [(s, g)]"
| "matches (Plus a) s g =
     concat (map (\<lambda>(s', g').
        (if length s' < length s then matches (Plus a) s' g' else []) @ [(s', g')])
       (matches a s g))"
| "matches (Grp n a) s g =
     map (\<lambda>(s', g'). (s', (n, take (length s - length s') s) # g')) (matches a s g)"

text \<open>\<^verbatim>\<open>re.match(pattern, s)\<close>: the first way to match at the start of \<open>s\<close>, if any.\<close>

definition re_match :: "re \<Rightarrow> string \<Rightarrow> groups option" where
  "re_match r s = (case matches r s [] of [] \<Rightarrow> None | (rest, g) # _ \<Rightarrow> Some g)"

text \<open>
  \<^verbatim>\<open>https://github\.com/([^/]+)/([^/]+)/pull/(\d+)(?:/commits/([a-f0-9]+))?\<close>
\<close>

definition pattern :: re where
  "pattern =
     Seq (Str ''https://github.com/'')
    (Seq (Grp 1 (Plus (NotSet ''/'')))
    (Seq (Chr CHR ''/'')
    (Seq (Grp 2 (Plus (NotSet ''/'')))
    (Seq (Str ''/pull/'')
    (Seq (Grp 3 (Plus Digit))
         (Opt (Seq (Str ''/commits/'') (Grp 4 (Plus (Set ''abcdef0123456789''))))))))))"

text \<open>
  \<^verbatim>\<open>match.groups()\<close> gives the four groups, \<^verbatim>\<open>None\<close> for one that took no part;
  \<^verbatim>\<open>int(None)\<close> raises \<^verbatim>\<open>TypeError\<close>.
\<close>

definition parse_pr_url :: "string \<Rightarrow> exn + (string \<times> string \<times> int \<times> string option)" where
  "parse_pr_url url =
     (case re_match pattern (strip url) of
        None \<Rightarrow> Inl (ValueError (''Invalid GitHub PR URL format: '' @ url))
      | Some g \<Rightarrow>
          (case (map_of g 1, map_of g 2, map_of g 3) of
             (Some owner, Some repo, Some pr_number) \<Rightarrow>
               Inr (owner, repo, int_of_digits pr_number, map_of g 4)
           | _ \<Rightarrow> Inl TypeError))"

section \<open>The commit locator: \<^verbatim>\<open>_get_commit_repo_info\<close>\<close>

text \<open>
  \<^verbatim>\<open>target_commit_sha or pr_info['head']['sha']\<close> reads the head SHA only when no
  non-empty pinned SHA is given.
\<close>

definition get_commit_repo_info ::
  "json \<Rightarrow> string option \<Rightarrow> exn + (json \<times> json \<times> json)" where
  "get_commit_repo_info pr_info target_commit_sha =
     ebind (case target_commit_sha of
              None \<Rightarrow> subscripts pr_info [''head'', ''sha'']
            | Some s \<Rightarrow> if s \<noteq> [] then Inr (JStr s) else subscripts pr_info [''head'', ''sha''])
       (\<lambda>commit_sha.
     ebind (subscripts pr_info [''head'', ''repo'']) (\<lambda>head_repo.
     ebind (subscripts pr_info [''base'', ''repo'']) (\<lambda>base_repo.
     ebind (subscript head_repo ''full_name'') (\<lambda>head_full_name.
     ebind (subscript base_repo ''full_name'') (\<lambda>base_full_name.
       if \<not> py_eq head_full_name base_full_name then
         ebind (subscripts head_repo [''owner'', ''login'']) (\<lambda>login.
         ebind (subscript head_repo ''name'') (\<lambda>name.
           Inr (login, name, commit_sha)))
       else
         ebind (subscripts base_repo [''owner'', ''login'']) (\<lambda>login.
         ebind (subscript base_repo ''name'') (\<lambda>name.
           Inr (login, name, commit_sha))))))))"

section \<open>The outside world\<close>

text \<open>
  The script talks to the REST API through \<^verbatim>\<open>requests\<close>, to \<^verbatim>\<open>git\<close> and \<^verbatim>\<open>tar\<close> through
  \<^verbatim>\<open>subprocess.run\<close>, and to the file system. Each such call is a request; the world
  answers it, and the answer may depend on everything that was requested and answered
  before, which is the history. A program takes the history and returns a value or an
  exception, and the history extended by its own requests.
\<close>

record response =
  status_code :: int
  json_body :: "exn + json"
  body_text :: string

record completed =
  returncode :: int
  stdout :: string
  stderr :: string

datatype request =
    Http_get string
  | Http_post string json
  | Subprocess_run "string list" string "string option"
  | Mkdtemp
  | Cleanup string
  | Listdir string
  | Isdir string
  | Path_exists string
  | Rmtree string
  | Remove string
  | Makedirs string

datatype reply =
    Raised exn
  | Got_response response
  | Got_completed completed
  | Got_path string
  | Got_names "string list"
  | Got_flag bool
  | Got_unit

type_synonym history = "(request \<times> reply) list"

text \<open>
  \<open>json_body\<close> is what \<^verbatim>\<open>response.json()\<close> returns or raises and \<open>body_text\<close> is
  \<^verbatim>\<open>response.text\<close>. \<open>github_token\<close> is \<^verbatim>\<open>self.github_token\<close>. \<open>repr_container\<close> is the
  text an f-string writes for a list or a dictionary. \<open>tmp_create\<close> and \<open>tmp_cleanup\<close> are
  entering and leaving \<^verbatim>\<open>with tempfile.TemporaryDirectory()\<close>.
\<close>

record env =
  github_token :: string
  repr_container :: "json \<Rightarrow> string"
  requests_get :: "history \<Rightarrow> string \<Rightarrow> exn + response"
  requests_post :: "history \<Rightarrow> string \<Rightarrow> json \<Rightarrow> exn + response"
  subprocess_run :: "history \<Rightarrow> string list \<Rightarrow> string \<Rightarrow> string option \<Rightarrow> exn + completed"
  tmp_create :: "history \<Rightarrow> exn + string"
  tmp_cleanup :: "history \<Rightarrow> string \<Rightarrow> exn + unit"
  os_listdir :: "history \<Rightarrow> string \<Rightarrow> exn + string list"
  os_path_isdir :: "history \<Rightarrow> string \<Rightarrow> bool"
  os_path_exists :: "history \<Rightarrow> string \<Rightarrow> bool"
  shutil_rmtree :: "history \<Rightarrow> string \<Rightarrow> exn + unit"
  os_remove :: "history \<Rightarrow> string \<Rightarrow> exn + unit"
  os_makedirs :: "history \<Rightarrow> string \<Rightarrow> exn + unit"

type_synonym 'a io = "history \<Rightarrow> (exn + 'a) \<times> history"

definition io_return :: "'a \<Rightarrow> 'a io" where
  "io_return x h = (Inr x, h)"

definition io_raise :: "exn \<Rightarrow> 'a io" where
  "io_raise e h = (Inl e, h)"

definition io_pure :: "exn + 'a \<Rightarrow> 'a io" where
  "io_pure r h = (r, h)"

definition io_bind :: "'a io \<Rightarrow> ('a \<Rightarrow> 'b io) \<Rightarrow> 'b io" where
  "io_bind m f h = (case m h of (Inl e, h') \<Rightarrow> (Inl e, h') | (Inr x, h') \<Rightarrow> f x h')"

text \<open>\<^verbatim>\<open>try: ... except requests.RequestException: return False\<close>\<close>

definition except_request :: "bool io \<Rightarrow> bool io" where
  "except_request m h =
     (case m h of
        (Inl RequestException, h') \<Rightarrow> (Inr False, h')
      | (r, h') \<Rightarrow> (r, h'))"

text \<open>\<^verbatim>\<open>try: ... except Exception: return False\<close>\<close>

definition except_exception :: "bool io \<Rightarrow> bool io" where
  "except_exception m h =
     (case m h of (Inl e, h') \<Rightarrow> (Inr False, h') | (Inr b, h') \<Rightarrow> (Inr b, h'))"

definition logged :: "request \<Rightarrow> ('a \<Rightarrow> reply) \<Rightarrow> exn + 'a \<Rightarrow> 'a io" where
  "logged rq wrap r h = (r, h @ [(rq, case r of Inl e \<Rightarrow> Raised e | Inr x \<Rightarrow> wrap x)])"

definition http_get :: "env \<Rightarrow> string \<Rightarrow> response io" where
  "http_get env url h = logged (Http_get url) Got_response (requests_get env h url) h"

definition http_post :: "env \<Rightarrow> string \<Rightarrow> json \<Rightarrow> response io" where
  "http_post env url payload h =
     logged (Http_post url payload) Got_response (requests_post env h url payload) h"

definition run :: "env \<Rightarrow> string list \<Rightarrow> string \<Rightarrow> string option \<Rightarrow> completed io" where
  "run env args cwd inp h =
     logged (Subprocess_run args cwd inp) Got_completed (subprocess_run env h args cwd inp) h"

definition listdir :: "env \<Rightarrow> string \<Rightarrow> string list io" where
  "listdir env path h = logged (Listdir path) Got_names (os_listdir env h path) h"

definition isdir :: "env \<Rightarrow> string \<Rightarrow> bool io" where
  "isdir env path h = logged (Isdir path) Got_flag (Inr (os_path_isdir env h path)) h"

definition path_exists :: "env \<Rightarrow> string \<Rightarrow> bool io" where
  "path_exists env path h =
     logged (Path_exists path) Got_flag (Inr (os_path_exists env h path)) h"

definition rmtree :: "env \<Rightarrow> string \<Rightarrow> unit io" where
  "rmtree env path h = logged (Rmtree path) (\<lambda>_. Got_unit) (shutil_rmtree env h path) h"

definition remove_file :: "env \<Rightarrow> string \<Rightarrow> unit io" where
  "remove_file env path h = logged (Remove path) (\<lambda>_. Got_unit) (os_remove env h path) h"

definition makedirs :: "env \<Rightarrow> string \<Rightarrow> unit io" where
  "makedirs env path h = logged (Makedirs path) (\<lambda>_. Got_unit) (os_makedirs env h path) h"

text \<open>
  \<^verbatim>\<open>with tempfile.TemporaryDirectory() as temp_dir: body\<close>. The directory is removed
  when the block is left, by a return or by an exception; an exception of the removal
  replaces the block's outcome.
\<close>

definition with_temporary_directory :: "env \<Rightarrow> (string \<Rightarrow> 'a io) \<Rightarrow> 'a io" where
  "with_temporary_directory env body =
     io_bind (\<lambda>h. logged Mkdtemp Got_path (tmp_create env h) h) (\<lambda>temp_dir h.
       case body temp_dir h of
         (r, h') \<Rightarrow>
           (case tmp_cleanup env h' temp_dir of
              Inl e \<Rightarrow> (Inl e, h' @ [(Cleanup temp_dir, Raised e)])
            | Inr u \<Rightarrow> (r, h' @ [(Cleanup temp_dir, Got_unit)])))"

text \<open>How an f-string writes a JSON value.\<close>

definition format_json :: "env \<Rightarrow> json \<Rightarrow> string" where
  "format_json env j =
     (case j of
        JNull \<Rightarrow> ''None''
      | JBool b \<Rightarrow> (if b then ''True'' else ''False'')
      | JInt i \<Rightarrow> str_int i
      | JStr s \<Rightarrow> s
      | _ \<Rightarrow> repr_container env j)"

section \<open>The REST calls\<close>

definition target_org :: string where
  "target_org = ''JulianEgbertMasterThesis''"

definition check_repo_exists :: "env \<Rightarrow> string \<Rightarrow> string \<Rightarrow> bool io" where
  "check_repo_exists env owner repo =
     (let target_repo_name = owner @ ''-'' @ repo;
          url = ''https://api.github.com/repos/'' @ target_org @ ''/'' @ target_repo_name
      in except_request
           (io_bind (http_get env url) (\<lambda>response.
              io_return (status_code response = 200))))"

text \<open>\<^verbatim>\<open>response.raise_for_status()\<close> raises \<^verbatim>\<open>HTTPError\<close> on a status from 400 to 599.\<close>

definition raise_for_status :: "response \<Rightarrow> exn + unit" where
  "raise_for_status response =
     (if 400 \<le> status_code response \<and> status_code response < 600
      then Inl RequestException else Inr ())"

definition get_pr_info :: "env \<Rightarrow> string \<Rightarrow> string \<Rightarrow> int \<Rightarrow> json io" where
  "get_pr_info env owner repo pr_number =
     (let url = ''https://api.github.com/repos/'' @ owner @ ''/'' @ repo @ ''/pulls/''
                  @ str_int pr_number
      in io_bind (http_get env url) (\<lambda>response.
         io_bind (io_pure (raise_for_status response)) (\<lambda>_.
         io_pure (json_body response))))"

definition create_empty_repository :: "env \<Rightarrow> string \<Rightarrow> string \<Rightarrow> bool io" where
  "create_empty_repository env repo_name description =
     (let url = ''https://api.github.com/orgs/'' @ target_org @ ''/repos'';
          payload = JObj [(''name'', JStr repo_name), (''description'', JStr description),
                          (''private'', JBool True), (''has_issues'', JBool True),
                          (''has_projects'', JBool False), (''has_wiki'', JBool False)]
      in except_request
           (io_bind (http_post env url payload) (\<lambda>response.
              if status_code response = 201 then io_return True else io_return False)))"

definition create_repository :: "env \<Rightarrow> string \<Rightarrow> string \<Rightarrow> bool io" where
  "create_repository env owner repo =
     (let target_repo_name = owner @ ''-'' @ repo
      in create_empty_repository env target_repo_name (''Copy of '' @ owner @ ''/'' @ repo))"

definition check_branch_exists :: "env \<Rightarrow> string \<Rightarrow> string \<Rightarrow> bool io" where
  "check_branch_exists env target_repo branch_name =
     (let url = ''https://api.github.com/repos/'' @ target_org @ ''/'' @ target_repo
                  @ ''/branches/'' @ branch_name
      in except_request
           (io_bind (http_get env url) (\<lambda>response.
              io_return (status_code response = 200))))"

text \<open>\<^verbatim>\<open>m.lower()\<close> exists on a string only.\<close>

fun json_lower :: "json \<Rightarrow> exn + string" where
  "json_lower (JStr s) = Inr (lower s)"
| "json_lower _ = Inl AttributeError"

text \<open>\<^verbatim>\<open>body + metadata\<close> with a string on the right.\<close>

fun json_plus_str :: "json \<Rightarrow> string \<Rightarrow> exn + json" where
  "json_plus_str (JStr s) t = Inr (JStr (s @ t))"
| "json_plus_str _ t = Inl TypeError"

text \<open>
  \<^verbatim>\<open>_create_pull_request\<close>. The title, the body and the payload are computed before the
  \<^verbatim>\<open>try\<close>; the first \<^verbatim>\<open>print\<close> inside it slices the title.
\<close>

definition create_pull_request ::
  "env \<Rightarrow> string \<Rightarrow> string \<Rightarrow> string \<Rightarrow> json \<Rightarrow> bool io" where
  "create_pull_request env target_repo head_branch base_branch pr_info =
     (let url = ''https://api.github.com/repos/'' @ target_org @ ''/'' @ target_repo @ ''/pulls''
      in io_bind (io_pure (dict_get pr_info ''title'' (JStr (''PR from '' @ head_branch)))) (\<lambda>title.
         io_bind (io_pure (dict_get pr_info ''body'' (JStr []))) (\<lambda>body0.
         let body = (if truthy body0 then body0 else JStr []) in
         io_bind (io_pure (dict_get pr_info ''html_url'' (JStr []))) (\<lambda>original_pr_url.
         let metadata = [CHR 0x0A, CHR 0x0A] @ ''---'' @ [CHR 0x0A] @ ''**Original PR:** `''
                          @ format_json env original_pr_url @ ''`'' in
         io_bind (io_pure (json_plus_str body metadata)) (\<lambda>body_with_metadata.
         let payload = JObj [(''title'', title), (''body'', body_with_metadata),
                             (''head'', JStr head_branch), (''base'', JStr base_branch)] in
         except_request
           (if \<not> sliceable title then io_raise TypeError else
            io_bind (http_post env url payload) (\<lambda>response.
              if status_code response = 201 then
                io_bind (io_pure (json_body response)) (\<lambda>pr_data.
                io_bind (io_pure (dict_get pr_data ''html_url'' (JStr []))) (\<lambda>pr_url.
                io_return True))
              else if status_code response = 422 then
                io_bind (io_pure (json_body response)) (\<lambda>error_data.
                io_bind (io_pure (dict_get error_data ''message'' (JStr []))) (\<lambda>message.
                io_bind (io_pure (json_lower message)) (\<lambda>lowered.
                if str_contains ''already exists'' lowered then io_return True
                else io_return False)))
              else io_return False)))))))"

section \<open>The branch materializers\<close>

definition failed :: "completed \<Rightarrow> bool" where
  "failed result \<longleftrightarrow> returncode result \<noteq> 0"

definition original_url :: "string \<Rightarrow> string \<Rightarrow> string" where
  "original_url owner repo = ''https://github.com/'' @ owner @ ''/'' @ repo @ ''.git''"

definition auth_target_url :: "env \<Rightarrow> string \<Rightarrow> string" where
  "auth_target_url env target_repo =
     (let target_url = ''https://github.com/'' @ target_org @ ''/'' @ target_repo @ ''.git''
      in str_replace ''https://'' (''https://'' @ github_token env @ ''@'') target_url)"

text \<open>
  The loop of \<^verbatim>\<open>_create_branch_from_base\<close> that empties the working tree, over the
  names \<^verbatim>\<open>os.listdir\<close> returned.
\<close>

fun clear_content :: "env \<Rightarrow> string \<Rightarrow> string list \<Rightarrow> unit io" where
  "clear_content env target_dir [] = io_return ()"
| "clear_content env target_dir (item # items) =
     (if item \<noteq> ''.git'' then
        (let item_path = os_path_join target_dir item in
         io_bind (isdir env item_path) (\<lambda>is_dir.
         io_bind (if is_dir then rmtree env item_path else remove_file env item_path) (\<lambda>_.
         clear_content env target_dir items)))
      else clear_content env target_dir items)"

text \<open>\<^verbatim>\<open>if os.path.exists(path): shutil.rmtree(path)\<close> for the \<^verbatim>\<open>.github\<close> folder.\<close>

definition remove_github_folder :: "env \<Rightarrow> string \<Rightarrow> unit io" where
  "remove_github_folder env dir =
     (let github_path = os_path_join dir ''.github''
      in io_bind (path_exists env github_path) (\<lambda>found.
         if found then rmtree env github_path else io_return ()))"

text \<open>
  \<^verbatim>\<open>_create_branch_from_base\<close>. Every \<^verbatim>\<open>subprocess.run\<close> is a \<open>run\<close> with its
  arguments, its \<^verbatim>\<open>cwd\<close> and its \<^verbatim>\<open>input\<close>; a step whose return code is tested returns
  \<^verbatim>\<open>False\<close> at once when it is not zero.
\<close>

definition create_branch_from_base ::
  "env \<Rightarrow> string \<Rightarrow> string \<Rightarrow> string \<Rightarrow> string \<Rightarrow> json \<Rightarrow> string \<Rightarrow> bool io" where
  "create_branch_from_base env owner repo target_repo branch_name commit_sha base_branch =
     except_exception (with_temporary_directory env (\<lambda>temp_dir.
       io_bind (run env [''git'', ''clone'', auth_target_url env target_repo, ''target'']
                  temp_dir None) (\<lambda>clone_result.
       if failed clone_result then io_return False else
       let target_dir = os_path_join temp_dir ''target'' in
       io_bind (run env [''git'', ''config'', ''user.name'', ''PR Branch Creator'']
                  target_dir None) (\<lambda>_.
       io_bind (run env [''git'', ''config'', ''user.email'', ''pr-branch-creator@example.com'']
                  target_dir None) (\<lambda>_.
       io_bind (run env [''git'', ''checkout'', base_branch] target_dir None) (\<lambda>checkout_result.
       if failed checkout_result then io_return False else
       io_bind (run env [''git'', ''checkout'', ''-b'', branch_name] target_dir None)
         (\<lambda>branch_result.
       if failed branch_result then io_return False else
       io_bind (run env [''git'', ''clone'', original_url owner repo, ''original'']
                  temp_dir None) (\<lambda>original_clone_result.
       if failed original_clone_result then io_return False else
       let original_dir = os_path_join temp_dir ''original'' in
       io_bind (io_pure (arg_str commit_sha)) (\<lambda>sha.
       io_bind (run env [''git'', ''archive'', ''--format=tar'', sha] original_dir None)
         (\<lambda>archive_result.
       if failed archive_result then io_return False else
       io_bind (listdir env target_dir) (\<lambda>items.
       io_bind (clear_content env target_dir items) (\<lambda>_.
       io_bind (run env [''tar'', ''-xf'', ''-''] target_dir (Some (stdout archive_result)))
         (\<lambda>extract_result.
       if failed extract_result then io_return False else
       io_bind (remove_github_folder env target_dir) (\<lambda>_.
       io_bind (run env [''git'', ''add'', ''-A''] target_dir None) (\<lambda>add_result.
       if failed add_result then io_return False else
       let commit_message = ''Commit '' @ sha in
       io_bind (run env [''git'', ''commit'', ''-m'', ''[PR Changes] '' @ commit_message]
                  target_dir None) (\<lambda>commit_result.
       if failed commit_result then
         (if str_contains ''nothing to commit'' (stdout commit_result) then
            io_bind (run env [''git'', ''push'', ''origin'', branch_name] target_dir None)
              (\<lambda>push_result.
            if failed push_result then io_return False else io_return True)
          else io_return False)
       else
       io_bind (run env [''git'', ''push'', ''origin'', branch_name] target_dir None)
         (\<lambda>push_result.
       if failed push_result then io_return False else io_return True)))))))))))))))))"

text \<open>
  \<^verbatim>\<open>_create_orphan_branch_with_commit\<close>. Its first \<^verbatim>\<open>print\<close> slices the commit SHA.
\<close>

definition create_orphan_branch_with_commit ::
  "env \<Rightarrow> string \<Rightarrow> string \<Rightarrow> string \<Rightarrow> string \<Rightarrow> json \<Rightarrow> bool io" where
  "create_orphan_branch_with_commit env owner repo target_repo branch_name commit_sha =
     except_exception (with_temporary_directory env (\<lambda>temp_dir.
       if \<not> sliceable commit_sha then io_raise TypeError else
       io_bind (run env [''git'', ''clone'', original_url owner repo, ''source''] temp_dir None)
         (\<lambda>clone_result.
       if failed clone_result then io_return False else
       let source_dir = os_path_join temp_dir ''source'';
           work_dir = os_path_join temp_dir ''work'' in
       io_bind (makedirs env work_dir) (\<lambda>_.
       io_bind (run env [''git'', ''init''] work_dir None) (\<lambda>init_result.
       if failed init_result then io_return False else
       io_bind (run env [''git'', ''config'', ''user.name'', ''PR Branch Creator'']
                  work_dir None) (\<lambda>_.
       io_bind (run env [''git'', ''config'', ''user.email'', ''pr-branch-creator@example.com'']
                  work_dir None) (\<lambda>_.
       io_bind (io_pure (arg_str commit_sha)) (\<lambda>sha.
       io_bind (run env [''git'', ''archive'', ''--format=tar'', sha] source_dir None)
         (\<lambda>archive_result.
       if failed archive_result then io_return False else
       io_bind (run env [''tar'', ''-xf'', ''-''] work_dir (Some (stdout archive_result)))
         (\<lambda>extract_result.
       if failed extract_result then io_return False else
       io_bind (remove_github_folder env work_dir) (\<lambda>_.
       io_bind (run env [''git'', ''add'', ''.''] work_dir None) (\<lambda>add_result.
       if failed add_result then io_return False else
       let commit_message = ''Commit '' @ sha in
       io_bind (run env [''git'', ''commit'', ''-m'', ''[Orphan] '' @ commit_message]
                  work_dir None) (\<lambda>commit_result.
       if failed commit_result then io_return False else
       io_bind (run env [''git'', ''remote'', ''add'', ''origin'', auth_target_url env target_repo]
                  work_dir None) (\<lambda>remote_result.
       if failed remote_result then io_return False else
       io_bind (run env [''git'', ''push'', ''origin'', ''HEAD:'' @ branch_name] work_dir None)
         (\<lambda>push_result.
       if failed push_result then io_return False else io_return True)))))))))))))))"

section \<open>The orchestrator: \<^verbatim>\<open>process_pr\<close>\<close>

text \<open>The two branch names, as \<^verbatim>\<open>process_pr\<close> builds them with f-strings.\<close>

definition main_branch_name :: "env \<Rightarrow> json \<Rightarrow> int \<Rightarrow> exn + string" where
  "main_branch_name env pr_info pr_number =
     ebind (subscripts pr_info [''base'', ''ref'']) (\<lambda>ref.
       Inr (format_json env ref @ ''-'' @ str_int pr_number))"

definition pr_branch_name :: "int \<Rightarrow> string option \<Rightarrow> string" where
  "pr_branch_name pr_number target_commit_sha =
     ''pr-'' @ str_int pr_number @
       (case target_commit_sha of
          None \<Rightarrow> []
        | Some s \<Rightarrow> if s \<noteq> [] then ''-'' @ take 8 s else [])"

text \<open>
  Besides the history, a run of \<^verbatim>\<open>process_pr\<close> keeps a log of the five calls of its
  steps 5 and 6, each with what the call returned or raised: the two existence checks,
  the two materializations and the pull request.
\<close>

datatype site =
    Base_exists "exn + bool"
  | Base_create "exn + bool"
  | Pr_exists "exn + bool"
  | Pr_create "exn + bool"
  | Open_pr "exn + bool"

type_synonym 'a orch = "site list \<times> history \<Rightarrow> (exn + 'a) \<times> site list \<times> history"

definition orch_return :: "'a \<Rightarrow> 'a orch" where
  "orch_return x st = (Inr x, st)"

definition orch_pure :: "exn + 'a \<Rightarrow> 'a orch" where
  "orch_pure r st = (r, st)"

definition orch_bind :: "'a orch \<Rightarrow> ('a \<Rightarrow> 'b orch) \<Rightarrow> 'b orch" where
  "orch_bind m f st = (case m st of (Inl e, st') \<Rightarrow> (Inl e, st') | (Inr x, st') \<Rightarrow> f x st')"

definition call :: "'a io \<Rightarrow> 'a orch" where
  "call m st = (case st of (sites, h) \<Rightarrow> (case m h of (r, h') \<Rightarrow> (r, sites, h')))"

definition call_site :: "(exn + 'a \<Rightarrow> site) \<Rightarrow> 'a io \<Rightarrow> 'a orch" where
  "call_site mk m st =
     (case st of (sites, h) \<Rightarrow> (case m h of (r, h') \<Rightarrow> (r, sites @ [mk r], h')))"

text \<open>
  \<^verbatim>\<open>process_pr\<close>. The three \<^verbatim>\<open>except\<close> clauses at its end all return \<^verbatim>\<open>False\<close>. The
  result is the returned flag, the log of the calls of steps 5 and 6, and the history.
\<close>

definition process_pr :: "env \<Rightarrow> string \<Rightarrow> history \<Rightarrow> bool \<times> site list \<times> history" where
  "process_pr env pr_url h =
     (case
        orch_bind (orch_pure (parse_pr_url pr_url))
          (\<lambda>(owner, repo, pr_number, target_commit_sha).
        let target_repo_name = owner @ ''-'' @ repo in
        orch_bind (call (check_repo_exists env owner repo)) (\<lambda>repo_exists.
        orch_bind (if \<not> repo_exists then call (create_repository env owner repo)
                   else orch_return True) (\<lambda>repo_ready.
        if \<not> repo_ready then orch_return False else
        orch_bind (call (get_pr_info env owner repo pr_number)) (\<lambda>pr_info.
        orch_bind (orch_pure (subscript pr_info ''state'')) (\<lambda>pr_state.
        orch_bind (orch_pure (dict_get pr_info ''merged'' (JBool False))) (\<lambda>pr_merged.
        orch_bind (orch_pure (subscripts pr_info [''base'', ''ref''])) (\<lambda>base_branch.
        orch_bind (orch_pure (get_commit_repo_info pr_info target_commit_sha))
          (\<lambda>(commit_owner, commit_repo, pr_sha).
        orch_bind (orch_pure (subscripts pr_info [''base'', ''sha''])) (\<lambda>main_sha.
        orch_bind (orch_pure (main_branch_name env pr_info pr_number)) (\<lambda>main_branch.
        let pr_branch = pr_branch_name pr_number target_commit_sha in
        orch_bind (call_site Base_exists
                     (check_branch_exists env target_repo_name main_branch)) (\<lambda>main_exists.
        orch_bind (if main_exists then orch_return True
                   else call_site Base_create
                          (create_orphan_branch_with_commit env owner repo target_repo_name
                             main_branch main_sha)) (\<lambda>main_ok.
        orch_bind (call_site Pr_exists
                     (check_branch_exists env target_repo_name pr_branch)) (\<lambda>pr_exists.
        orch_bind (if pr_exists then orch_return True
                   else call_site Pr_create
                          (create_branch_from_base env owner repo target_repo_name
                             pr_branch pr_sha main_branch)) (\<lambda>pr_ok.
        let success = (main_ok \<and> pr_ok) in
        orch_bind (if success
                   then call_site Open_pr
                          (create_pull_request env target_repo_name pr_branch main_branch pr_info)
                   else orch_return True) (\<lambda>_.
        orch_return success)))))))))))))))
        ([], h)
      of
        (Inl e, sites, h') \<Rightarrow> (False, sites, h')
      | (Inr result, sites, h') \<Rightarrow> (result, sites, h'))"

section \<open>Notions used to state the properties\<close>

text \<open>
  The part of a PullRequestInfo the commit locator reads: the identities of the head and
  of the base repository and the head SHA. \<open>describes pr_info v\<close> says that the JSON value
  \<open>pr_info\<close> carries these fields, the two full names as strings.
\<close>

record pull_request_info =
  head_full_name :: string
  head_login :: json
  head_name :: json
  base_full_name :: string
  base_login :: json
  base_name :: json
  head_sha :: json

definition describes :: "json \<Rightarrow> pull_request_info \<Rightarrow> bool" where
  "describes pr_info v \<longleftrightarrow>
     subscripts pr_info [''head'', ''repo'', ''full_name''] = Inr (JStr (head_full_name v)) \<and>
     subscripts pr_info [''head'', ''repo'', ''owner'', ''login''] = Inr (head_login v) \<and>
     subscripts pr_info [''head'', ''repo'', ''name''] = Inr (head_name v) \<and>
     subscripts pr_info [''base'', ''repo'', ''full_name''] = Inr (JStr (base_full_name v)) \<and>
     subscripts pr_info [''base'', ''repo'', ''owner'', ''login''] = Inr (base_login v) \<and>
     subscripts pr_info [''base'', ''repo'', ''name''] = Inr (base_name v) \<and>
     subscripts pr_info [''head'', ''sha''] = Inr (head_sha v)"

text \<open>
  A pull request from the fork \<^verbatim>\<open>alice/widget\<close> into \<^verbatim>\<open>org/widget\<close>, and one inside
  \<^verbatim>\<open>org/widget\<close>.
\<close>

definition repo_json :: "string \<Rightarrow> string \<Rightarrow> json" where
  "repo_json owner name =
     JObj [(''full_name'', JStr (owner @ ''/'' @ name)), (''name'', JStr name),
           (''owner'', JObj [(''login'', JStr owner)])]"

definition example_pr_info :: "string \<Rightarrow> json" where
  "example_pr_info head_owner =
     JObj [(''state'', JStr ''open''), (''title'', JStr ''Add a widget''), (''body'', JNull),
           (''html_url'', JStr ''https://github.com/org/widget/pull/42''),
           (''head'', JObj [(''sha'', JStr ''1111111111aaaaaaaaaa''), (''ref'', JStr ''feature''),
                            (''repo'', repo_json head_owner ''widget'')]),
           (''base'', JObj [(''sha'', JStr ''2222222222bbbbbbbbbb''), (''ref'', JStr ''main''),
                            (''repo'', repo_json ''org'' ''widget'')])]"

definition example_view :: "string \<Rightarrow> pull_request_info" where
  "example_view head_owner =
     \<lparr>head_full_name = head_owner @ ''/widget'', head_login = JStr head_owner,
      head_name = JStr ''widget'', base_full_name = ''org/widget'', base_login = JStr ''org'',
      base_name = JStr ''widget'', head_sha = JStr ''1111111111aaaaaaaaaa''\<rparr>"

text \<open>
  The strings \<^verbatim>\<open>_parse_pr_url\<close> accepts once stripped: those that begin with
  \<^verbatim>\<open>https://github.com/<owner>/<repo>/pull/<digits>\<close>, whatever follows.
\<close>

definition pr_url_prefix :: "string \<Rightarrow> string \<Rightarrow> string \<Rightarrow> string \<Rightarrow> string \<Rightarrow> bool" where
  "pr_url_prefix s owner repo digits rest \<longleftrightarrow>
     s = ''https://github.com/'' @ owner @ ''/'' @ repo @ ''/pull/'' @ digits @ rest \<and>
     owner \<noteq> [] \<and> CHR ''/'' \<notin> set owner \<and>
     repo \<noteq> [] \<and> CHR ''/'' \<notin> set repo \<and>
     digits \<noteq> [] \<and> list_all is_digit digits"

definition is_hex :: "char \<Rightarrow> bool" where
  "is_hex c \<longleftrightarrow> c \<in> set ''abcdef0123456789''"

text \<open>
  The pinned SHA read from what follows the digits of the pull request number: the
  longest run of lower-case hexadecimal digits after \<^verbatim>\<open>/commits/\<close>, if that run is not
  empty.
\<close>

definition pinned_sha :: "string \<Rightarrow> string option" where
  "pinned_sha t =
     (if prefix ''/commits/'' t \<and> takeWhile is_hex (drop 9 t) \<noteq> []
      then Some (takeWhile is_hex (drop 9 t)) else None)"

text \<open>
  The shape the specification gives for a reference, read as a description of the whole
  string: \<^verbatim>\<open>https://<host>/<owner>/<repo>/pull/<number>[/commits/<sha>]\<close> with a
  non-empty host, owner and repository name, a decimal number and a SHA in lower-case
  hexadecimal digits. \<open>split_on\<close> is \<^verbatim>\<open>str.split\<close> at one character.
\<close>

fun split_on :: "char \<Rightarrow> string \<Rightarrow> string list" where
  "split_on c [] = [[]]"
| "split_on c (x # xs) =
     (if x = c then [] # split_on c xs
      else (case split_on c xs of [] \<Rightarrow> [[x]] | w # ws \<Rightarrow> (x # w) # ws))"

definition spec_shape :: "string \<Rightarrow> bool" where
  "spec_shape s =
     (let p = split_on CHR ''/'' s
      in (length p = 7 \<or> length p = 9) \<and>
         p ! 0 = ''https:'' \<and> p ! 1 = [] \<and> p ! 2 \<noteq> [] \<and> p ! 3 \<noteq> [] \<and> p ! 4 \<noteq> [] \<and>
         p ! 5 = ''pull'' \<and> p ! 6 \<noteq> [] \<and> list_all is_digit (p ! 6) \<and>
         (if length p = 9
          then p ! 7 = ''commits'' \<and> p ! 8 \<noteq> [] \<and> list_all is_hex (p ! 8)
          else True))"

text \<open>
  A left-to-right reading of a stripped reference: the owner and the repository name up
  to the next \<^verbatim>\<open>/\<close>, the longest run of digits after \<^verbatim>\<open>/pull/\<close>, and what follows it.
  It is used to state what the regular expression matches.
\<close>

definition scan_pr_url :: "string \<Rightarrow> (string \<times> string \<times> string \<times> string) option" where
  "scan_pr_url s =
     (if prefix ''https://github.com/'' s then
        (let s1 = drop 19 s;
             owner = takeWhile (\<lambda>c. c \<noteq> CHR ''/'') s1;
             r1 = dropWhile (\<lambda>c. c \<noteq> CHR ''/'') s1
         in if owner = [] \<or> \<not> prefix ''/'' r1 then None
            else
              (let s2 = drop 1 r1;
                   repo = takeWhile (\<lambda>c. c \<noteq> CHR ''/'') s2;
                   r2 = dropWhile (\<lambda>c. c \<noteq> CHR ''/'') s2
               in if repo = [] \<or> \<not> prefix ''/pull/'' r2 then None
                  else
                    (let s3 = drop 6 r2;
                         digits = takeWhile is_digit s3
                     in if digits = [] then None
                        else Some (owner, repo, digits, dropWhile is_digit s3))))
      else None)"

text \<open>
  A world without memory, for examples: every GET is answered by \<open>get\<close>, every POST by
  \<open>post\<close>, every subprocess by \<open>proc\<close>; the temporary directory is \<^verbatim>\<open>/tmp/work\<close> and
  the file system holds nothing.
\<close>

definition example_env ::
  "(string \<Rightarrow> response) \<Rightarrow> (string \<Rightarrow> json \<Rightarrow> response) \<Rightarrow> (string list \<Rightarrow> completed) \<Rightarrow> env" where
  "example_env get post proc =
     \<lparr>github_token = ''token'',
      repr_container = (\<lambda>j. ''...''),
      requests_get = (\<lambda>h url. Inr (get url)),
      requests_post = (\<lambda>h url payload. Inr (post url payload)),
      subprocess_run = (\<lambda>h args cwd inp. Inr (proc args)),
      tmp_create = (\<lambda>h. Inr ''/tmp/work''),
      tmp_cleanup = (\<lambda>h dir. Inr ()),
      os_listdir = (\<lambda>h path. Inr []),
      os_path_isdir = (\<lambda>h path. False),
      os_path_exists = (\<lambda>h path. False),
      shutil_rmtree = (\<lambda>h path. Inr ()),
      os_remove = (\<lambda>h path. Inr ()),
      os_makedirs = (\<lambda>h path. Inr ())\<rparr>"

definition answer :: "int \<Rightarrow> json \<Rightarrow> response" where
  "answer status body = \<lparr>status_code = status, json_body = Inr body, body_text = ''''\<rparr>"

definition exit_with :: "int \<Rightarrow> string \<Rightarrow> completed" where
  "exit_with code out = \<lparr>returncode = code, stdout = out, stderr = ''''\<rparr>"

text \<open>
  \<open>http_only h h'\<close>: the history \<open>h'\<close> extends \<open>h\<close> by requests to the REST API only, so no
  subprocess was run and the file system was not touched in between.
\<close>

fun is_http :: "request \<Rightarrow> bool" where
  "is_http (Http_get url) = True"
| "is_http (Http_post url payload) = True"
| "is_http _ = False"

definition http_only :: "history \<Rightarrow> history \<Rightarrow> bool" where
  "http_only h h' \<longleftrightarrow> (\<exists>evs. h' = h @ evs \<and> list_all (\<lambda>e. is_http (fst e)) evs)"

text \<open>
  \<open>triple P m Q\<close>: started with an empty log of calls and a history that satisfies \<open>P\<close>, the
  program \<open>m\<close> of the orchestrator ends in an outcome, a log and a history that satisfy \<open>Q\<close>.
\<close>

definition triple ::
  "(history \<Rightarrow> bool) \<Rightarrow> 'a orch \<Rightarrow> (exn + 'a \<Rightarrow> site list \<Rightarrow> history \<Rightarrow> bool) \<Rightarrow> bool" where
  "triple P m Q \<longleftrightarrow>
     (\<forall>h0 r sites h'. P h0 \<longrightarrow> m ([], h0) = (r, sites, h') \<longrightarrow> Q r sites h')"

section \<open>Basic facts\<close>

lemma ebind_Inr [simp]: "ebind (Inr x) f = f x"
  by (simp add: ebind_def)

lemma ebind_Inl [simp]: "ebind (Inl e) f = Inl e"
  by (simp add: ebind_def)

lemma ebind_right [simp]: "ebind m Inr = m"
  by (cases m) simp_all

lemma ebind_eq_Inr:
  "ebind m f = Inr v \<longleftrightarrow> (\<exists>w. m = Inr w \<and> f w = Inr v)"
  by (cases m) simp_all

section \<open>The commit locator\<close>

lemma get_commit_repo_info_described:
  assumes "describes pr_info v"
  shows "get_commit_repo_info pr_info pin =
     Inr (if head_full_name v \<noteq> base_full_name v then head_login v else base_login v,
          if head_full_name v \<noteq> base_full_name v then head_name v else base_name v,
          case pin of None \<Rightarrow> head_sha v | Some s \<Rightarrow> if s \<noteq> [] then JStr s else head_sha v)"
proof -
  from assms have hf: "subscripts pr_info [''head'', ''repo'', ''full_name'']
      = Inr (JStr (head_full_name v))"
    and bf: "subscripts pr_info [''base'', ''repo'', ''full_name'']
      = Inr (JStr (base_full_name v))"
    and ho: "subscripts pr_info [''head'', ''repo'', ''owner'', ''login''] = Inr (head_login v)"
    and hn: "subscripts pr_info [''head'', ''repo'', ''name''] = Inr (head_name v)"
    and bo: "subscripts pr_info [''base'', ''repo'', ''owner'', ''login''] = Inr (base_login v)"
    and bn: "subscripts pr_info [''base'', ''repo'', ''name''] = Inr (base_name v)"
    and hs: "subscripts pr_info [''head'', ''sha''] = Inr (head_sha v)"
    unfolding describes_def by blast+
  from hf obtain hd hr where hd: "subscript pr_info ''head'' = Inr hd"
    and hr: "subscript hd ''repo'' = Inr hr"
    and hrf: "subscript hr ''full_name'' = Inr (JStr (head_full_name v))"
    by (auto simp: ebind_eq_Inr)
  from bf obtain bd br where bd: "subscript pr_info ''base'' = Inr bd"
    and br: "subscript bd ''repo'' = Inr br"
    and brf: "subscript br ''full_name'' = Inr (JStr (base_full_name v))"
    by (auto simp: ebind_eq_Inr)
  from ho hd hr have hro: "subscripts hr [''owner'', ''login''] = Inr (head_login v)" by simp
  from hn hd hr have hrn: "subscript hr ''name'' = Inr (head_name v)" by simp
  from bo bd br have bro: "subscripts br [''owner'', ''login''] = Inr (base_login v)" by simp
  from bn bd br have brn: "subscript br ''name'' = Inr (base_name v)" by simp
  have hrepo: "subscripts pr_info [''head'', ''repo''] = Inr hr" using hd hr by simp
  have brepo: "subscripts pr_info [''base'', ''repo''] = Inr br" using bd br by simp
  show ?thesis
    unfolding get_commit_repo_info_def
    by (cases pin) (simp_all add: hs hrepo brepo hrf brf hro hrn bro brn del: subscripts.simps)
qed

lemma example_described: "describes (example_pr_info head_owner) (example_view head_owner)"
  by (simp add: describes_def example_pr_info_def example_view_def repo_json_def)

text \<open>
  C1. On a PullRequestInfo, the commit locator returns the owner and the name of the head
  repository when the full names of the head and the base repository differ, and the
  owner and the name of the base repository when they are equal.
\<close>

theorem fork_resolution:
  assumes "describes pr_info v"
  shows "\<exists>sha. get_commit_repo_info pr_info pin =
     Inr (if head_full_name v \<noteq> base_full_name v
          then (head_login v, head_name v, sha) else (base_login v, base_name v, sha))"
  using get_commit_repo_info_described [OF assms, of pin] by auto

theorem fork_resolution_witness:
  "describes (example_pr_info ''alice'') (example_view ''alice'') \<and>
   (\<exists>sha. get_commit_repo_info (example_pr_info ''alice'') None =
      Inr (JStr ''alice'', JStr ''widget'', sha)) \<and>
   describes (example_pr_info ''org'') (example_view ''org'') \<and>
   (\<exists>sha. get_commit_repo_info (example_pr_info ''org'') None =
      Inr (JStr ''org'', JStr ''widget'', sha))"
proof -
  have a: "describes (example_pr_info ''alice'') (example_view ''alice'')"
    by (rule example_described)
  have b: "describes (example_pr_info ''org'') (example_view ''org'')"
    by (rule example_described)
  from fork_resolution [OF a, of None] fork_resolution [OF b, of None] a b
  show ?thesis by (simp add: example_view_def)
qed

text \<open>
  C2. On a PullRequestInfo, the SHA the commit locator returns is the pinned commit SHA
  when a non-empty one is supplied and the head SHA of the pull request when none is,
  whether or not the pull request comes from a fork.
\<close>

theorem pinned_commit_precedence:
  assumes "describes pr_info v"
  shows "\<exists>owner name. get_commit_repo_info pr_info pin =
     Inr (owner, name,
          case pin of None \<Rightarrow> head_sha v | Some s \<Rightarrow> if s \<noteq> [] then JStr s else head_sha v)"
  using get_commit_repo_info_described [OF assms, of pin] by auto

theorem pinned_commit_precedence_witness:
  "describes (example_pr_info ''alice'') (example_view ''alice'') \<and>
   (\<exists>owner name. get_commit_repo_info (example_pr_info ''alice'') (Some ''0123abcd'') =
      Inr (owner, name, JStr ''0123abcd'')) \<and>
   (\<exists>owner name. get_commit_repo_info (example_pr_info ''org'') None =
      Inr (owner, name, JStr ''1111111111aaaaaaaaaa''))"
proof -
  have a: "describes (example_pr_info ''alice'') (example_view ''alice'')"
    by (rule example_described)
  have b: "describes (example_pr_info ''org'') (example_view ''org'')"
    by (rule example_described)
  from pinned_commit_precedence [OF a, of "Some ''0123abcd''"]
    pinned_commit_precedence [OF b, of None] a
  show ?thesis by (simp add: example_view_def)
qed

section \<open>The repository existence check\<close>

text \<open>
  C9. \<^verbatim>\<open>check_repo_exists\<close> sends one GET for the mirror repository. It returns true when
  the answer has status 200, false when the answer has any other status, and false when
  the request raises a \<^verbatim>\<open>RequestException\<close>; any other exception is not caught.
\<close>

theorem check_repo_exists_result:
  "check_repo_exists env owner repo h =
     (let url = ''https://api.github.com/repos/JulianEgbertMasterThesis/'' @ owner @ ''-'' @ repo;
          r = requests_get env h url
      in ((case r of
             Inr response \<Rightarrow> Inr (status_code response = 200)
           | Inl e \<Rightarrow> if e = RequestException then Inr False else Inl e),
          h @ [(Http_get url, case r of Inl e \<Rightarrow> Raised e | Inr x \<Rightarrow> Got_response x)]))"
  by (simp add: check_repo_exists_def except_request_def io_bind_def http_get_def logged_def
      io_return_def target_org_def Let_def split: sum.splits exn.splits)

section \<open>What the regular expression matches\<close>

lemma upt_shift: "map f [Suc a..<Suc b] = map (\<lambda>n. f (Suc n)) [a..<b]"
  by (simp add: map_Suc_upt [symmetric] del: upt_Suc)

lemma plus_class:
  assumes cls: "\<And>s g. matches r s g = one_char P s g"
  shows "matches (Plus r) s g =
           map (\<lambda>n. (drop n s, g)) (rev [1..<Suc (length (takeWhile P s))])"
proof (induction s)
  case Nil
  show ?case by (simp add: cls one_char_def)
next
  case (Cons c cs)
  show ?case
  proof (cases "P c")
    case False
    then show ?thesis by (simp add: cls one_char_def)
  next
    case True
    let ?k = "length (takeWhile P cs)"
    have "matches (Plus r) (c # cs) g = matches (Plus r) cs g @ [(cs, g)]"
      using True by (simp add: cls one_char_def)
    also have "\<dots> = map (\<lambda>n. (drop n cs, g)) (rev [1..<Suc ?k]) @ [(cs, g)]"
      by (simp only: Cons.IH)
    also have "\<dots> = map (\<lambda>n. (drop n (c # cs), g)) (rev [1..<Suc (Suc ?k)])"
    proof -
      have "[1..<Suc (Suc ?k)] = 1 # [Suc 1..<Suc (Suc ?k)]"
        by (simp add: upt_conv_Cons del: upt_Suc)
      then have "map (\<lambda>n. (drop n (c # cs), g)) (rev [1..<Suc (Suc ?k)])
          = rev (map (\<lambda>n. (drop n (c # cs), g)) [Suc 1..<Suc (Suc ?k)]) @ [(cs, g)]"
        by (simp add: rev_map del: upt_Suc)
      also have "map (\<lambda>n. (drop n (c # cs), g)) [Suc 1..<Suc (Suc ?k)]
          = map (\<lambda>n. (drop n cs, g)) [1..<Suc ?k]"
        by (simp add: upt_shift del: upt_Suc)
      finally show ?thesis by (simp add: rev_map del: upt_Suc)
    qed
    finally show ?thesis using True by simp
  qed
qed


declare matches.simps(8) [simp del]

lemma grp_plus_class:
  assumes cls: "\<And>s g. matches r s g = one_char P s g"
  shows "matches (Grp i (Plus r)) s g =
           map (\<lambda>n. (drop n s, (i, take n s) # g)) (rev [1..<Suc (length (takeWhile P s))])"
proof -
  have le: "length (takeWhile P s) \<le> length s"
    by (rule length_takeWhile_le)
  have "map (\<lambda>n. (drop n s, (i, take (length s - length (drop n s)) s) # g))
           (rev [1..<Suc (length (takeWhile P s))])
      = map (\<lambda>n. (drop n s, (i, take n s) # g)) (rev [1..<Suc (length (takeWhile P s))])"
    using le by (intro map_cong) auto
  then show ?thesis
    by (simp add: plus_class [OF cls] comp_def del: upt_Suc)
qed

lemma starts_with_class:
  assumes "n < length (takeWhile P s)"
  shows "\<exists>c cs. drop n s = c # cs \<and> P c"
proof -
  have le: "length (takeWhile P s) \<le> length s"
    by (rule length_takeWhile_le)
  with assms have n: "n < length s" by simp
  have "takeWhile P s ! n \<in> set (takeWhile P s)"
    using assms by (rule nth_mem)
  then have "P (takeWhile P s ! n)"
    by (rule set_takeWhileD [THEN conjunct2])
  moreover have "takeWhile P s ! n = s ! n"
    using assms by (rule takeWhile_nth)
  ultimately have "P (s ! n)" by simp
  moreover have "drop n s = s ! n # drop (Suc n) s"
    using n by (simp add: Cons_nth_drop_Suc)
  ultimately show ?thesis by blast
qed

lemma seq_grp_plus_concat:
  assumes cls: "\<And>s g. matches r s g = one_char P s g"
  shows "matches (Seq (Grp i (Plus r)) K) s g =
           concat (map (\<lambda>n. matches K (drop n s) ((i, take n s) # g))
                     (rev [1..<Suc (length (takeWhile P s))]))"
proof -
  have "matches (Seq (Grp i (Plus r)) K) s g =
          concat (map (\<lambda>(s', g'). matches K s' g') (matches (Grp i (Plus r)) s g))"
    by (simp only: matches.simps(6))
  also have "\<dots> = concat (map (\<lambda>(s', g'). matches K s' g')
      (map (\<lambda>n. (drop n s, (i, take n s) # g)) (rev [1..<Suc (length (takeWhile P s))])))"
    by (simp only: grp_plus_class [OF cls])
  finally show ?thesis
    by (simp add: comp_def del: upt_Suc)
qed

lemma seq_grp_plus_class:
  assumes cls: "\<And>s g. matches r s g = one_char P s g"
    and fails: "\<And>c cs g'. P c \<Longrightarrow> matches K (c # cs) g' = []"
  shows "matches (Seq (Grp i (Plus r)) K) s g =
           (if takeWhile P s = [] then []
            else matches K (dropWhile P s) ((i, takeWhile P s) # g))"
proof (cases "takeWhile P s = []")
  case True
  then show ?thesis by (simp only: seq_grp_plus_concat [OF cls]) simp
next
  case False
  define k where "k = length (takeWhile P s)"
  from False have k: "0 < k" by (simp add: k_def)
  let ?f = "\<lambda>n. matches K (drop n s) ((i, take n s) # g)"
  have upt: "rev [1..<Suc k] = k # rev [1..<k]"
    using k by simp
  have inner: "?f n = []" if "n \<in> set (rev [1..<k])" for n
  proof -
    from that have "n < length (takeWhile P s)" by (simp add: k_def)
    then obtain c cs where "drop n s = c # cs" "P c"
      using starts_with_class by blast
    then show ?thesis by (simp add: fails)
  qed
  have "matches (Seq (Grp i (Plus r)) K) s g = concat (map ?f (rev [1..<Suc k]))"
    by (simp only: seq_grp_plus_concat [OF cls] k_def)
  also have "\<dots> = ?f k @ concat (map ?f (rev [1..<k]))"
    by (simp only: upt list.map concat.simps)
  also have "concat (map ?f (rev [1..<k])) = []"
    using inner by simp
  finally show ?thesis
    using False by (simp add: k_def takeWhile_eq_take [symmetric] dropWhile_eq_drop [symmetric])
qed


lemma cls_notslash: "matches (NotSet ''/'') s g = one_char (\<lambda>x. x \<noteq> CHR ''/'') s g"
  by simp

lemma cls_digit: "matches Digit s g = one_char is_digit s g"
  by simp

lemma cls_hex: "matches (Set ''abcdef0123456789'') s g = one_char is_hex s g"
  unfolding is_hex_def [abs_def] by (simp only: matches.simps)

lemma rev_upt_Suc: "0 < k \<Longrightarrow> rev [1..<Suc k] = k # rev [1..<k]"
  by simp

lemma matches_Str_commits:
  "matches (Str ''/commits/'') s g = (if prefix ''/commits/'' s then [(drop 9 s, g)] else [])"
proof -
  have len: "length ''/commits/'' = 9" by simp
  show ?thesis by (simp only: matches.simps(2) len)
qed

lemma commits_part:
  "matches (Seq (Str ''/commits/'') (Grp 4 (Plus (Set ''abcdef0123456789'')))) s g =
     (if prefix ''/commits/'' s
      then map (\<lambda>n. (drop n (drop 9 s), (4, take n (drop 9 s)) # g))
             (rev [1..<Suc (length (takeWhile is_hex (drop 9 s)))])
      else [])"
proof -
  have "matches (Seq (Str ''/commits/'') (Grp 4 (Plus (Set ''abcdef0123456789'')))) s g =
      concat (map (\<lambda>(s', g'). matches (Grp 4 (Plus (Set ''abcdef0123456789''))) s' g')
        (matches (Str ''/commits/'') s g))"
    by (simp only: matches.simps(6))
  also have "\<dots> = (if prefix ''/commits/'' s
      then matches (Grp 4 (Plus (Set ''abcdef0123456789''))) (drop 9 s) g else [])"
    by (simp only: matches_Str_commits) simp
  finally show ?thesis
    by (simp only: grp_plus_class [OF cls_hex])
qed

lemma first_commits_part:
  "matches (Opt (Seq (Str ''/commits/'') (Grp 4 (Plus (Set ''abcdef0123456789''))))) s g =
     (case pinned_sha s of
        None \<Rightarrow> [(s, g)]
      | Some h \<Rightarrow>
          (drop (length h) (drop 9 s), (4, h) # g) #
          map (\<lambda>n. (drop n (drop 9 s), (4, take n (drop 9 s)) # g)) (rev [1..<length h]) @
          [(s, g)])"
proof -
  let ?X = "Seq (Str ''/commits/'') (Grp 4 (Plus (Set ''abcdef0123456789'')))"
  let ?t = "drop 9 s"
  let ?k = "length (takeWhile is_hex ?t)"
  have opt: "matches (Opt ?X) s g = matches ?X s g @ [(s, g)]"
    by (simp only: matches.simps(7))
  show ?thesis
  proof (cases "prefix ''/commits/'' s \<and> takeWhile is_hex ?t \<noteq> []")
    case False
    then have "matches ?X s g = []"
      by (auto simp only: commits_part split: if_splits) simp
    with False show ?thesis by (simp only: opt pinned_sha_def) simp
  next
    case True
    then have k: "0 < ?k" by simp
    then have upt: "rev [1..<Suc ?k] = ?k # rev [1..<?k]" by (rule rev_upt_Suc)
    have "matches ?X s g =
        map (\<lambda>n. (drop n ?t, (4, take n ?t) # g)) (rev [1..<Suc ?k])"
      using True by (simp only: commits_part if_True)
    also have "\<dots> = (drop ?k ?t, (4, take ?k ?t) # g) #
        map (\<lambda>n. (drop n ?t, (4, take n ?t) # g)) (rev [1..<?k])"
      by (simp only: upt list.map)
    finally have "matches ?X s g = (drop ?k ?t, (4, takeWhile is_hex ?t) # g) #
        map (\<lambda>n. (drop n ?t, (4, take n ?t) # g)) (rev [1..<?k])"
      by (simp only: takeWhile_eq_take [symmetric])
    with True show ?thesis by (simp only: opt pinned_sha_def) simp
  qed
qed


lemma seq_Str: "matches (Seq (Str l) K) s g =
    (if prefix l s then matches K (drop (length l) s) g else [])"
  by (simp only: matches.simps(2,6)) simp

lemma seq_Chr: "matches (Seq (Chr c) K) s g =
    (if prefix [c] s then matches K (drop 1 s) g else [])"
  by (cases s) (simp_all only: matches.simps(1,6) one_char_def, simp_all)

lemma owner_part:
  "matches (Seq (Grp i (Plus (NotSet ''/''))) (Seq (Chr CHR ''/'') K)) s g =
     (if takeWhile (\<lambda>c. c \<noteq> CHR ''/'') s = [] then []
      else matches (Seq (Chr CHR ''/'') K) (dropWhile (\<lambda>c. c \<noteq> CHR ''/'') s)
             ((i, takeWhile (\<lambda>c. c \<noteq> CHR ''/'') s) # g))"
  by (rule seq_grp_plus_class [OF cls_notslash]) (simp only: seq_Chr, simp)

lemma repo_part:
  "matches (Seq (Grp i (Plus (NotSet ''/''))) (Seq (Str ''/pull/'') K)) s g =
     (if takeWhile (\<lambda>c. c \<noteq> CHR ''/'') s = [] then []
      else matches (Seq (Str ''/pull/'') K) (dropWhile (\<lambda>c. c \<noteq> CHR ''/'') s)
             ((i, takeWhile (\<lambda>c. c \<noteq> CHR ''/'') s) # g))"
  by (rule seq_grp_plus_class [OF cls_notslash]) (simp only: seq_Str, simp)

lemma first_number_part:
  "(case matches (Seq (Grp 3 (Plus Digit))
        (Opt (Seq (Str ''/commits/'') (Grp 4 (Plus (Set ''abcdef0123456789'')))))) s g
    of [] \<Rightarrow> None | (rest, g') # _ \<Rightarrow> Some g') =
   (if takeWhile is_digit s = [] then None
    else Some ((case pinned_sha (dropWhile is_digit s) of None \<Rightarrow> [] | Some h \<Rightarrow> [(4, h)])
               @ (3, takeWhile is_digit s) # g))"
proof (cases "takeWhile is_digit s = []")
  case True
  then show ?thesis by (simp only: seq_grp_plus_concat [OF cls_digit]) simp
next
  case False
  let ?O = "Opt (Seq (Str ''/commits/'') (Grp 4 (Plus (Set ''abcdef0123456789''))))"
  let ?k = "length (takeWhile is_digit s)"
  let ?f = "\<lambda>n. matches ?O (drop n s) ((3, take n s) # g)"
  from False have "0 < ?k" by simp
  then have upt: "rev [1..<Suc ?k] = ?k # rev [1..<?k]" by (rule rev_upt_Suc)
  have "matches (Seq (Grp 3 (Plus Digit)) ?O) s g = concat (map ?f (rev [1..<Suc ?k]))"
    by (simp only: seq_grp_plus_concat [OF cls_digit])
  also have "\<dots> = ?f ?k @ concat (map ?f (rev [1..<?k]))"
    by (simp only: upt list.map concat.simps)
  also have "?f ?k = matches ?O (dropWhile is_digit s) ((3, takeWhile is_digit s) # g)"
    by (simp only: takeWhile_eq_take [symmetric] dropWhile_eq_drop [symmetric])
  finally have eq: "matches (Seq (Grp 3 (Plus Digit)) ?O) s g =
      matches ?O (dropWhile is_digit s) ((3, takeWhile is_digit s) # g)
        @ concat (map ?f (rev [1..<?k]))" .
  show ?thesis
    using False
    by (simp only: eq first_commits_part) (simp split: option.splits)
qed

lemma re_match_pattern:
  "re_match pattern s =
     (case scan_pr_url s of
        None \<Rightarrow> None
      | Some (owner, repo, digits, t) \<Rightarrow>
          Some ((case pinned_sha t of None \<Rightarrow> [] | Some h \<Rightarrow> [(4, h)])
                @ [(3, digits), (2, repo), (1, owner)]))"
proof -
  have len19: "length ''https://github.com/'' = 19" by simp
  have len6: "length ''/pull/'' = 6" by simp
  show ?thesis
    unfolding re_match_def pattern_def
    apply (simp only: seq_Str [of "''https://github.com/''"] len19 owner_part seq_Chr
        repo_part seq_Str [of "''/pull/''"] len6)
    apply (simp only: scan_pr_url_def Let_def)
    apply (simp only: if_distrib [of "\<lambda>xs. case xs of [] \<Rightarrow> None | (rest, g) # _ \<Rightarrow> Some g"]
        first_number_part list.case)
    apply (simp split: if_splits)
    done
qed


lemma parse_pr_url_scan:
  "parse_pr_url url =
     (case scan_pr_url (strip url) of
        None \<Rightarrow> Inl (ValueError (''Invalid GitHub PR URL format: '' @ url))
      | Some (owner, repo, digits, t) \<Rightarrow> Inr (owner, repo, int_of_digits digits, pinned_sha t))"
  unfolding parse_pr_url_def re_match_pattern
  by (simp split: option.splits)

lemma scan_of_prefix:
  assumes "pr_url_prefix s owner repo digits rest"
  shows "scan_pr_url s =
     Some (owner, repo, digits @ takeWhile is_digit rest, dropWhile is_digit rest)"
proof -
  from assms have s: "s = ''https://github.com/'' @ owner @ ''/'' @ repo @ ''/pull/'' @ digits @ rest"
    and o: "owner \<noteq> []" "\<forall>c\<in>set owner. c \<noteq> CHR ''/''"
    and r: "repo \<noteq> []" "\<forall>c\<in>set repo. c \<noteq> CHR ''/''"
    and d: "digits \<noteq> []" "\<forall>c\<in>set digits. is_digit c"
    by (auto simp: pr_url_prefix_def list_all_iff)
  have s1: "drop 19 s = owner @ CHR ''/'' # repo @ ''/pull/'' @ digits @ rest"
    by (simp add: s)
  have tw1: "takeWhile (\<lambda>c. c \<noteq> CHR ''/'') (drop 19 s) = owner"
    and dw1: "dropWhile (\<lambda>c. c \<noteq> CHR ''/'') (drop 19 s) = CHR ''/'' # repo @ ''/pull/'' @ digits @ rest"
    using o by (simp_all add: s1 takeWhile_append2 dropWhile_append2)
  have tw2: "takeWhile (\<lambda>c. c \<noteq> CHR ''/'') (repo @ ''/pull/'' @ digits @ rest) = repo"
    and dw2: "dropWhile (\<lambda>c. c \<noteq> CHR ''/'') (repo @ ''/pull/'' @ digits @ rest)
        = ''/pull/'' @ digits @ rest"
    using r by (simp_all add: takeWhile_append2 dropWhile_append2)
  have tw3: "takeWhile is_digit (digits @ rest) = digits @ takeWhile is_digit rest"
    and dw3: "dropWhile is_digit (digits @ rest) = dropWhile is_digit rest"
    using d by (simp_all add: takeWhile_append2 dropWhile_append2)
  have p: "prefix ''https://github.com/'' s" by (simp add: s)
  show ?thesis
    unfolding scan_pr_url_def Let_def
    by (simp only: p if_True tw1 dw1) (simp add: tw2 dw2 tw3 dw3 o r d)
qed

lemma prefix_of_scan:
  assumes "scan_pr_url s = Some (owner, repo, digits, t)"
  shows "pr_url_prefix s owner repo digits t"
proof -
  let ?ns = "\<lambda>c. c \<noteq> CHR ''/''"
  let ?s1 = "drop 19 s"
  let ?r1 = "dropWhile ?ns ?s1"
  let ?s2 = "drop 1 ?r1"
  let ?r2 = "dropWhile ?ns ?s2"
  let ?s3 = "drop 6 ?r2"
  from assms have p0: "prefix ''https://github.com/'' s"
    and o: "owner = takeWhile ?ns ?s1" "owner \<noteq> []" and p1: "prefix ''/'' ?r1"
    and r: "repo = takeWhile ?ns ?s2" "repo \<noteq> []" and p2: "prefix ''/pull/'' ?r2"
    and d: "digits = takeWhile is_digit ?s3" "digits \<noteq> []" and t: "t = dropWhile is_digit ?s3"
    by (auto simp: scan_pr_url_def Let_def split: if_splits)
  have len19: "length ''https://github.com/'' = 19" by simp
  have len6: "length ''/pull/'' = 6" by simp
  have len1: "length ''/'' = 1" by simp
  have e0: "s = ''https://github.com/'' @ ?s1"
    using p0 unfolding prefix_def by (metis append_eq_conv_conj len19)
  have e1: "?s1 = owner @ ?r1" by (simp only: o takeWhile_dropWhile_id)
  have e2: "?r1 = ''/'' @ ?s2"
    using p1 unfolding prefix_def by (metis append_eq_conv_conj len1)
  have e3: "?s2 = repo @ ?r2" by (simp only: r takeWhile_dropWhile_id)
  have e4: "?r2 = ''/pull/'' @ ?s3"
    using p2 unfolding prefix_def by (metis append_eq_conv_conj len6)
  have e5: "?s3 = digits @ t" by (simp only: d t takeWhile_dropWhile_id)
  have "s = ''https://github.com/'' @ owner @ ''/'' @ repo @ ''/pull/'' @ digits @ t"
    by (metis e0 e1 e2 e3 e4 e5)
  moreover have "CHR ''/'' \<notin> set owner"
    unfolding o using set_takeWhileD by fastforce
  moreover have "CHR ''/'' \<notin> set repo"
    unfolding r using set_takeWhileD by fastforce
  moreover have "list_all is_digit digits"
    unfolding d list_all_iff using set_takeWhileD by fastforce
  ultimately show ?thesis
    using o(2) r(2) d(2) unfolding pr_url_prefix_def by blast
qed

section \<open>Stripping, scanning and decimal numbers\<close>

declare str_nat.simps [simp del]

lemma digit_not_space: "is_digit c \<Longrightarrow> \<not> is_space c"
  by (auto simp: is_digit_def is_space_def)

lemma dropWhile_append_keep:
  "ys \<noteq> [] \<Longrightarrow> \<not> P (hd ys) \<Longrightarrow> dropWhile P (xs @ ys) = dropWhile P xs @ ys"
  by (induction xs) (auto simp: neq_Nil_conv)

lemma takeWhile_append_none:
  "\<forall>y\<in>set ys. \<not> P y \<Longrightarrow> takeWhile P (xs @ ys) = takeWhile P xs"
  by (induction xs) (auto simp: takeWhile_eq_Nil_iff neq_Nil_conv)

lemma rstrip_append_spaces: "\<exists>sp. s = rstrip s @ sp \<and> (\<forall>c\<in>set sp. is_space c)"
proof -
  have "rev s = takeWhile is_space (rev s) @ dropWhile is_space (rev s)" by simp
  then have "s = rev (dropWhile is_space (rev s)) @ rev (takeWhile is_space (rev s))"
    by (metis rev_append rev_rev_ident)
  moreover have "\<forall>c\<in>set (rev (takeWhile is_space (rev s))). is_space c"
    using set_takeWhileD by fastforce
  ultimately show ?thesis unfolding rstrip_def by blast
qed

lemma takeWhile_digit_rstrip: "takeWhile is_digit (rstrip s) = takeWhile is_digit s"
proof -
  obtain sp where s: "s = rstrip s @ sp" and sp: "\<forall>c\<in>set sp. is_space c"
    using rstrip_append_spaces by blast
  from sp have "\<forall>c\<in>set sp. \<not> is_digit c" using digit_not_space by blast
  then have "takeWhile is_digit (rstrip s @ sp) = takeWhile is_digit (rstrip s)"
    by (rule takeWhile_append_none)
  with s show ?thesis by simp
qed

lemma rstrip_append_keep:
  assumes "ys \<noteq> []" "\<not> is_space (last ys)"
  shows "rstrip (ys @ xs) = ys @ rstrip xs"
proof -
  have "rev ys \<noteq> []" "\<not> is_space (hd (rev ys))"
    using assms by (simp_all add: hd_rev)
  then have "dropWhile is_space (rev xs @ rev ys) = dropWhile is_space (rev xs) @ rev ys"
    by (rule dropWhile_append_keep)
  then show ?thesis by (simp add: rstrip_def)
qed

lemma strip_keeps_prefix:
  assumes "pr_url_prefix url owner repo digits rest"
  shows "pr_url_prefix (strip url) owner repo digits (rstrip rest)"
proof -
  let ?p = "''https://github.com/'' @ owner @ ''/'' @ repo @ ''/pull/'' @ digits"
  from assms have url: "url = ?p @ rest" and d: "digits \<noteq> []" "list_all is_digit digits"
    by (simp_all add: pr_url_prefix_def)
  have "\<not> is_space CHR ''h''" by (simp add: is_space_def)
  then have l: "lstrip url = url" by (simp add: lstrip_def url)
  have "?p \<noteq> []" by simp
  from d have "is_digit (last digits)" by (simp add: list_all_iff)
  then have "\<not> is_space (last ?p)" using d(1) by (simp add: digit_not_space)
  with \<open>?p \<noteq> []\<close> have r: "rstrip (?p @ rest) = ?p @ rstrip rest"
    by (rule rstrip_append_keep)
  have "strip url = rstrip url" by (simp only: strip_def l)
  also have "\<dots> = rstrip (?p @ rest)" using url by (rule arg_cong)
  also note r
  finally have "strip url = ?p @ rstrip rest" .
  with assms show ?thesis by (simp only: pr_url_prefix_def append_assoc) simp
qed

lemma pinned_sha_nonempty: "pinned_sha t = Some s \<Longrightarrow> s \<noteq> []"
  by (auto simp: pinned_sha_def split: if_splits)

lemma parse_pr_url_of_prefix:
  assumes "pr_url_prefix (strip url) owner repo digits rest"
  shows "parse_pr_url url =
     Inr (owner, repo, int_of_digits (digits @ takeWhile is_digit rest),
          pinned_sha (dropWhile is_digit rest))"
  by (simp add: parse_pr_url_scan scan_of_prefix [OF assms])

lemma parse_pr_url_success:
  assumes "parse_pr_url url = Inr (owner, repo, n, sha)"
  shows "\<exists>digits t. pr_url_prefix (strip url) owner repo digits t \<and> n = int_of_digits digits
           \<and> sha = pinned_sha t"
proof -
  from assms obtain digits t where sc: "scan_pr_url (strip url) = Some (owner, repo, digits, t)"
    and "n = int_of_digits digits" "sha = pinned_sha t"
    by (auto simp: parse_pr_url_scan split: option.splits)
  with prefix_of_scan [OF sc] show ?thesis by blast
qed

lemma parse_pr_url_failure:
  assumes "\<not> (\<exists>owner repo digits rest. pr_url_prefix (strip url) owner repo digits rest)"
  shows "parse_pr_url url = Inl (ValueError (''Invalid GitHub PR URL format: '' @ url))"
proof (cases "scan_pr_url (strip url)")
  case None
  then show ?thesis by (simp add: parse_pr_url_scan)
next
  case (Some a)
  obtain owner repo digits t where "a = (owner, repo, digits, t)" by (cases a) auto
  with Some prefix_of_scan assms show ?thesis by blast
qed

lemma process_pr_parse_failure:
  "parse_pr_url url = Inl e \<Longrightarrow> process_pr env url h = (False, [], h)"
  by (simp add: process_pr_def orch_bind_def orch_pure_def)

lemmas eval_parse = parse_pr_url_scan scan_pr_url_def strip_def lstrip_def rstrip_def
  is_space_def is_digit_def pinned_sha_def is_hex_def int_of_digits_def digit_value_def

lemma digit_value_digit_char: "d < 10 \<Longrightarrow> digit_value (digit_char d) = int d"
proof -
  assume "d < 10"
  then have "d \<in> {0, 1, 2, 3, 4, 5, 6, 7, 8, 9}" by auto
  then show ?thesis
    by (auto simp: digit_char_def digit_value_def)
qed

lemma is_digit_digit_char: "d < 10 \<Longrightarrow> is_digit (digit_char d)"
proof -
  assume "d < 10"
  then have "d \<in> {0, 1, 2, 3, 4, 5, 6, 7, 8, 9}" by auto
  then show ?thesis
    by (auto simp: digit_char_def is_digit_def)
qed

lemma int_of_digits_snoc:
  "int_of_digits (xs @ [c]) = 10 * int_of_digits xs + digit_value c"
  by (simp add: int_of_digits_def)

lemma int_of_digits_str_nat: "int_of_digits (str_nat n) = int n"
proof (induction n rule: str_nat.induct)
  case (1 n)
  show ?case
  proof (cases "n < 10")
    case True
    then show ?thesis
      by (subst str_nat.simps) (simp add: int_of_digits_def digit_value_digit_char)
  next
    case False
    have "int_of_digits (str_nat n) =
        10 * int_of_digits (str_nat (n div 10)) + digit_value (digit_char (n mod 10))"
      using False by (subst str_nat.simps) (simp add: int_of_digits_snoc)
    also have "\<dots> = 10 * int (n div 10) + int (n mod 10)"
      using False by (simp add: "1.IH" digit_value_digit_char)
    also have "\<dots> = int n" by presburger
    finally show ?thesis .
  qed
qed

lemma str_nat_digits: "list_all is_digit (str_nat n) \<and> str_nat n \<noteq> []"
proof (induction n rule: str_nat.induct)
  case (1 n)
  show ?case
  proof (cases "n < 10")
    case True
    then show ?thesis by (subst (1 2) str_nat.simps) (simp add: is_digit_digit_char)
  next
    case False
    with "1.IH" show ?thesis
      by (subst (1 2) str_nat.simps) (simp add: is_digit_digit_char)
  qed
qed

lemma digit_value_nonneg: "is_digit c \<Longrightarrow> 0 \<le> digit_value c"
  by (auto simp: is_digit_def digit_value_def)

lemma int_of_digits_nonneg: "list_all is_digit s \<Longrightarrow> 0 \<le> int_of_digits s"
proof (induction s rule: rev_induct)
  case Nil
  show ?case by (simp add: int_of_digits_def)
next
  case (snoc c cs)
  then have "0 \<le> int_of_digits cs" "0 \<le> digit_value c"
    by (simp_all add: digit_value_nonneg)
  then show ?case by (simp add: int_of_digits_snoc)
qed

section \<open>The URL resolver\<close>

text \<open>
  C6, as the specification states it, fails in both directions: a reference that goes on
  after the number is accepted although it deviates from the shape, and a reference of
  the stated shape on another host is rejected.
\<close>

theorem reference_shape_counterexample:
  "\<not> spec_shape ''https://github.com/o/r/pull/1/files'' \<and>
   parse_pr_url ''https://github.com/o/r/pull/1/files'' = Inr (''o'', ''r'', 1, None) \<and>
   spec_shape ''https://gitlab.com/o/r/pull/1'' \<and>
   parse_pr_url ''https://gitlab.com/o/r/pull/1'' =
     Inl (ValueError ''Invalid GitHub PR URL format: https://gitlab.com/o/r/pull/1'')"
  by (simp add: eval_parse spec_shape_def)

text \<open>
  C6, amended. \<^verbatim>\<open>_parse_pr_url\<close> succeeds exactly when the string, stripped of white space
  at both ends, begins with \<^verbatim>\<open>https://github.com/<owner>/<repo>/pull/<digits>\<close>. Otherwise
  it raises a \<^verbatim>\<open>ValueError\<close> whose message carries the string as given, and
  \<^verbatim>\<open>process_pr\<close> then returns \<^verbatim>\<open>False\<close> without any request to the outside world and
  without any call of its steps 5 and 6.
\<close>

theorem malformed_reference_rejected:
  "((\<exists>res. parse_pr_url url = Inr res) \<longleftrightarrow>
      (\<exists>owner repo digits rest. pr_url_prefix (strip url) owner repo digits rest)) \<and>
   ((\<nexists>res. parse_pr_url url = Inr res) \<longrightarrow>
      parse_pr_url url = Inl (ValueError (''Invalid GitHub PR URL format: '' @ url)) \<and>
      process_pr env url h = (False, [], h))"
proof (cases "\<exists>owner repo digits rest. pr_url_prefix (strip url) owner repo digits rest")
  case True
  then obtain owner repo digits rest where "pr_url_prefix (strip url) owner repo digits rest"
    by blast
  from parse_pr_url_of_prefix [OF this] True show ?thesis by simp
next
  case False
  from parse_pr_url_failure [OF False]
  have f: "parse_pr_url url = Inl (ValueError (''Invalid GitHub PR URL format: '' @ url))" .
  from process_pr_parse_failure [OF f] f False show ?thesis by simp
qed

theorem malformed_reference_rejected_witness:
  "\<forall>env h.
     (\<nexists>res. parse_pr_url ''https://github.com/o/r/issues/7'' = Inr res) \<and>
     parse_pr_url ''https://github.com/o/r/issues/7'' =
       Inl (ValueError ''Invalid GitHub PR URL format: https://github.com/o/r/issues/7'') \<and>
     process_pr env ''https://github.com/o/r/issues/7'' h = (False, [], h)"
proof (intro allI)
  fix env :: env and h :: history
  have n: "\<nexists>res. parse_pr_url ''https://github.com/o/r/issues/7'' = Inr res"
    by (simp add: eval_parse)
  from malformed_reference_rejected [of "''https://github.com/o/r/issues/7''" env h] n
  show "(\<nexists>res. parse_pr_url ''https://github.com/o/r/issues/7'' = Inr res) \<and>
     parse_pr_url ''https://github.com/o/r/issues/7'' =
       Inl (ValueError ''Invalid GitHub PR URL format: https://github.com/o/r/issues/7'') \<and>
     process_pr env ''https://github.com/o/r/issues/7'' h = (False, [], h)"
    by simp
qed

text \<open>
  C10, as stated, fails in its second half: a SHA with a character outside the lower-case
  hexadecimal digits is not ignored when it begins with such digits; that beginning
  becomes the pinned SHA.
\<close>

theorem ignored_sha_counterexample:
  "\<not> list_all is_hex ''abcXYZ'' \<and>
   parse_pr_url ''https://github.com/o/r/pull/1/commits/abcXYZ'' =
     Inr (''o'', ''r'', 1, Some ''abc'')"
  by (simp add: eval_parse)

text \<open>
  C10, amended. Every string that begins with
  \<^verbatim>\<open>https://github.com/<owner>/<repo>/pull/<digits>\<close> is parsed successfully, whatever
  follows. The number is read from the longest run of digits. The pinned SHA is the
  longest run of lower-case hexadecimal digits after a \<^verbatim>\<open>/commits/\<close> that directly
  follows the number; there is none when that run is empty, in particular when the first
  character after \<^verbatim>\<open>/commits/\<close> is not such a digit.
\<close>

theorem parse_is_prefix_based:
  assumes "pr_url_prefix url owner repo digits rest"
  shows "parse_pr_url url =
     Inr (owner, repo, int_of_digits (digits @ takeWhile is_digit rest),
          pinned_sha (dropWhile is_digit (rstrip rest)))"
  using parse_pr_url_of_prefix [OF strip_keeps_prefix [OF assms]]
  by (simp only: takeWhile_digit_rstrip)

theorem parse_is_prefix_based_witness:
  "pr_url_prefix ''https://github.com/o/r/pull/12/commits/XYZ'' ''o'' ''r'' ''12'' ''/commits/XYZ'' \<and>
   parse_pr_url ''https://github.com/o/r/pull/12/commits/XYZ'' = Inr (''o'', ''r'', 12, None) \<and>
   pr_url_prefix ''https://github.com/o/r/pull/12/commits/0a1b2cZ and more''
     ''o'' ''r'' ''12'' ''/commits/0a1b2cZ and more'' \<and>
   parse_pr_url ''https://github.com/o/r/pull/12/commits/0a1b2cZ and more'' =
     Inr (''o'', ''r'', 12, Some ''0a1b2c'')"
proof -
  have a: "pr_url_prefix ''https://github.com/o/r/pull/12/commits/XYZ''
      ''o'' ''r'' ''12'' ''/commits/XYZ''"
    by (simp add: pr_url_prefix_def is_digit_def)
  have b: "pr_url_prefix ''https://github.com/o/r/pull/12/commits/0a1b2cZ and more''
      ''o'' ''r'' ''12'' ''/commits/0a1b2cZ and more''"
    by (simp add: pr_url_prefix_def is_digit_def)
  from parse_is_prefix_based [OF a] parse_is_prefix_based [OF b] a b
  show ?thesis
    by (simp add: rstrip_def is_space_def is_digit_def pinned_sha_def is_hex_def
        int_of_digits_def digit_value_def)
qed

section \<open>The branch names\<close>

text \<open>
  C5. For a base ref \<open>B\<close> and the pull request number \<open>N\<close> and the optional pinned SHA \<open>S\<close>
  that \<^verbatim>\<open>_parse_pr_url\<close> returned, the base-state branch is named \<open>B-N\<close> and the
  PR-state branch is named \<open>pr-N\<close> when there is no pinned SHA and \<open>pr-N-\<close> followed by
  the first eight characters of \<open>S\<close> when there is one, \<open>N\<close> written in decimal.
\<close>

theorem branch_names:
  assumes "parse_pr_url url = Inr (owner, repo, N, S)"
    and "subscripts pr_info [''base'', ''ref''] = Inr (JStr B)"
  shows "main_branch_name env pr_info N = Inr (B @ ''-'' @ str_int N) \<and>
         pr_branch_name N S =
           (case S of None \<Rightarrow> ''pr-'' @ str_int N
            | Some s \<Rightarrow> ''pr-'' @ str_int N @ ''-'' @ take 8 s) \<and>
         int_of_digits (str_int N) = N"
proof -
  from parse_pr_url_success [OF assms(1)] obtain digits t
    where p: "pr_url_prefix (strip url) owner repo digits t"
      and n: "N = int_of_digits digits" and s: "S = pinned_sha t"
    by blast
  have m: "main_branch_name env pr_info N = Inr (B @ ''-'' @ str_int N)"
    using assms(2) by (simp add: main_branch_name_def format_json_def del: subscripts.simps)
  have b: "pr_branch_name N S =
      (case S of None \<Rightarrow> ''pr-'' @ str_int N | Some s \<Rightarrow> ''pr-'' @ str_int N @ ''-'' @ take 8 s)"
  proof (cases S)
    case None
    then show ?thesis by (simp add: pr_branch_name_def)
  next
    case (Some x)
    with s have "pinned_sha t = Some x" by simp
    then have "x \<noteq> []" by (rule pinned_sha_nonempty)
    with Some show ?thesis by (simp add: pr_branch_name_def)
  qed
  from p have "list_all is_digit digits" by (simp add: pr_url_prefix_def)
  then have "0 \<le> N" unfolding n by (rule int_of_digits_nonneg)
  then have "int_of_digits (str_int N) = N"
    by (simp add: str_int_def int_of_digits_str_nat)
  with m b show ?thesis by simp
qed

theorem branch_names_witness:
  "parse_pr_url ''https://github.com/org/widget/pull/42'' = Inr (''org'', ''widget'', 42, None) \<and>
   parse_pr_url ''https://github.com/org/widget/pull/42/commits/0123456789abcdef'' =
     Inr (''org'', ''widget'', 42, Some ''0123456789abcdef'') \<and>
   subscripts (example_pr_info ''alice'') [''base'', ''ref''] = Inr (JStr ''main'') \<and>
   (\<forall>env. main_branch_name env (example_pr_info ''alice'') 42 = Inr ''main-42'') \<and>
   pr_branch_name 42 None = ''pr-42'' \<and>
   pr_branch_name 42 (Some ''0123456789abcdef'') = ''pr-42-01234567''"
proof -
  have a: "parse_pr_url ''https://github.com/org/widget/pull/42'' =
      Inr (''org'', ''widget'', 42, None)"
    by (simp add: eval_parse)
  have b: "parse_pr_url ''https://github.com/org/widget/pull/42/commits/0123456789abcdef'' =
      Inr (''org'', ''widget'', 42, Some ''0123456789abcdef'')"
    by (simp add: eval_parse)
  have r: "subscripts (example_pr_info ''alice'') [''base'', ''ref''] = Inr (JStr ''main'')"
    by (simp add: example_pr_info_def)
  have n: "str_int 42 = ''42''"
    by (simp add: str_int_def str_nat.simps digit_char_def)
  from branch_names [OF a r] branch_names [OF b r] a b r
  show ?thesis by (simp add: n del: subscripts.simps)
qed

end
